theory Spec2Isabelle
  imports Complex_Main "HOL-Library.Multiset"
begin

section \<open>Decoded JavaScript values\<close>

text \<open>
  The hook \<open>useWebSocket\<close> works on whatever \<open>JSON.parse\<close> returns, so the
  model carries dynamically typed values. A number is an IEEE double: the finite ones
  are rationals here, and the three non-finite values are kept apart, since
  \<open>JSON.parse\<close> maps an overflowing literal such as \<open>1e999\<close> to \<open>Infinity\<close>.
  An object is the list of its own properties; the first binding of a key is the one
  a property read sees. \<open>JUndefined\<close> is what reading an absent property gives.
\<close>

datatype jsnum = Finite rat | PosInfinity | NegInfinity | NaN

datatype jsval =
    JUndefined
  | JNull
  | JBool bool
  | JNum jsnum
  | JStr string
  | JArr "jsval list"
  | JObj "(string \<times> jsval) list"

text \<open>The operator \<open>typeof\<close>.\<close>

fun typeof :: "jsval \<Rightarrow> string" where
  "typeof JUndefined = ''undefined''"
| "typeof JNull = ''object''"
| "typeof (JBool b) = ''boolean''"
| "typeof (JNum n) = ''number''"
| "typeof (JStr s) = ''string''"
| "typeof (JArr xs) = ''object''"
| "typeof (JObj kvs) = ''object''"

text \<open>\<open>ToBoolean\<close>: what \<open>&&\<close>, \<open>||\<close>, \<open>!\<close> and \<open>filter\<close> test.\<close>

fun truthy :: "jsval \<Rightarrow> bool" where
  "truthy JUndefined = False"
| "truthy JNull = False"
| "truthy (JBool b) = b"
| "truthy (JNum n) = (n \<noteq> Finite 0 \<and> n \<noteq> NaN)"
| "truthy (JStr s) = (s \<noteq> [])"
| "truthy (JArr xs) = True"
| "truthy (JObj kvs) = True"

text \<open>
  The property read \<open>v.k\<close> on a value that is neither \<open>null\<close> nor \<open>undefined\<close>,
  for the names the hook reads (\<open>src_geo\<close>, \<open>dst_geo\<close>, \<open>lon\<close>, \<open>lat\<close>,
  \<open>country\<close>, \<open>type\<close>, \<open>payload\<close>, \<open>total\<close>, \<open>countries\<close>): none of them is on
  a built-in prototype, so only an object's own property can answer.
\<close>

fun get :: "jsval \<Rightarrow> string \<Rightarrow> jsval" where
  "get (JObj kvs) k = (case map_of kvs k of None \<Rightarrow> JUndefined | Some v \<Rightarrow> v)"
| "get v k = JUndefined"

section \<open>The event validator\<close>

text \<open>
  The callback of \<open>parsed.filter\<close> in \<open>onmessage\<close>:
  \<^verbatim>\<open>attack && typeof attack === 'object' && attack.src_geo && attack.dst_geo &&
  typeof attack.src_geo.lon === 'number' && typeof attack.src_geo.lat === 'number' &&
  typeof attack.dst_geo.lon === 'number' && typeof attack.dst_geo.lat === 'number'\<close>
\<close>

definition is_valid_attack :: "jsval \<Rightarrow> bool" where
  "is_valid_attack attack =
     (truthy attack \<and>
      typeof attack = ''object'' \<and>
      truthy (get attack ''src_geo'') \<and>
      truthy (get attack ''dst_geo'') \<and>
      typeof (get (get attack ''src_geo'') ''lon'') = ''number'' \<and>
      typeof (get (get attack ''src_geo'') ''lat'') = ''number'' \<and>
      typeof (get (get attack ''dst_geo'') ''lon'') = ''number'' \<and>
      typeof (get (get attack ''dst_geo'') ''lat'') = ''number'')"

text \<open>
  The reading of the specification: the four coordinates are finite numbers. This
  definition follows the specification's words, not the code.
\<close>

fun is_finite_number :: "jsval \<Rightarrow> bool" where
  "is_finite_number (JNum (Finite q)) = True"
| "is_finite_number v = False"

definition all_coordinates_finite :: "jsval \<Rightarrow> bool" where
  "all_coordinates_finite attack =
     (is_finite_number (get (get attack ''src_geo'') ''lon'') \<and>
      is_finite_number (get (get attack ''src_geo'') ''lat'') \<and>
      is_finite_number (get (get attack ''dst_geo'') ''lon'') \<and>
      is_finite_number (get (get attack ''dst_geo'') ''lat''))"

text \<open>What the code asks of a coordinate: that it is a number, of any kind.\<close>

fun is_number :: "jsval \<Rightarrow> bool" where
  "is_number (JNum n) = True"
| "is_number v = False"

fun is_object :: "jsval \<Rightarrow> bool" where
  "is_object (JObj kvs) = True"
| "is_object v = False"

definition geo_point :: "jsval \<Rightarrow> bool" where
  "geo_point g = (is_object g \<and> is_number (get g ''lon'') \<and> is_number (get g ''lat''))"

section \<open>The hook's state\<close>

text \<open>
  One record holds what \<open>useWebSocket\<close> keeps between callbacks: the \<open>useState\<close>
  cells (\<open>attacks\<close>, \<open>isConnected\<close>, \<open>lastUpdate\<close>, \<open>error\<close>, \<open>todayTotal\<close>,
  \<open>todayByCountry\<close>), the \<open>useRef\<close> cells, and the part of the browser the
  callbacks act on: the sockets created so far, each with its \<open>readyState\<close>, and
  the timers that are still pending. A socket is named by its position in
  \<open>sockets\<close>; a timer handle is a positive number, as \<open>setTimeout\<close> returns it.
  \<open>None\<close> stands for \<open>null\<close> and for \<open>undefined\<close>. Times are milliseconds since
  the epoch, as \<open>Date.getTime\<close> gives them.
\<close>

datatype ready_state = CONNECTING | OPEN | CLOSING | CLOSED

record hook =
  attacks :: "jsval list"
  isConnected :: bool
  lastUpdate :: "int option"
  error :: "string option"
  todayTotal :: "jsnum option"
  todayByCountry :: "jsval list option"
  wsRef :: "nat option"
  reconnectAttemptsRef :: nat
  reconnectTimeoutRef :: "nat option"
  allAttacksRef :: "jsval list"
  startTimeRef :: int
  sockets :: "ready_state list"
  timers :: "(nat \<times> nat) list"
  nextTimer :: nat

text \<open>
  What the hook is given and what it calls without defining: the two options with
  their defaults, whether \<open>new WebSocket(url)\<close> succeeds for the \<open>url\<close> (it throws
  on an address it cannot parse), and \<open>JSON.parse\<close>, whose \<open>None\<close> is the thrown
  \<open>SyntaxError\<close>.
\<close>

record options =
  reconnectInterval :: nat
  maxReconnectAttempts :: nat
  url_accepted :: bool
  json_parse :: "string \<Rightarrow> jsval option"

definition default_options :: "(string \<Rightarrow> jsval option) \<Rightarrow> options" where
  "default_options parse =
     \<lparr>reconnectInterval = 5000, maxReconnectAttempts = 10, url_accepted = True, json_parse = parse\<rparr>"

text \<open>The state of the first render, at time \<open>t0\<close>.\<close>

definition initial :: "int \<Rightarrow> hook" where
  "initial t0 =
     \<lparr>attacks = [], isConnected = False, lastUpdate = None, error = None,
      todayTotal = None, todayByCountry = None, wsRef = None,
      reconnectAttemptsRef = 0, reconnectTimeoutRef = None, allAttacksRef = [],
      startTimeRef = t0, sockets = [], timers = [], nextTimer = 1\<rparr>"

section \<open>The rolling buffer\<close>

text \<open>\<open>xs.slice(-n)\<close>: the last \<open>n\<close> elements, all of them when there are fewer.\<close>

definition slice_last :: "nat \<Rightarrow> 'a list \<Rightarrow> 'a list" where
  "slice_last n xs = drop (length xs - n) xs"

text \<open>
  The two statements of \<open>onmessage\<close> that write \<open>allAttacksRef.current\<close>: spread the
  batch behind the buffer, then keep the last 1000 if there are more.
\<close>

definition append_batch :: "jsval list \<Rightarrow> jsval list \<Rightarrow> jsval list" where
  "append_batch buffer validAttacks =
     (let all = buffer @ validAttacks
      in if length all > 1000 then slice_last 1000 all else all)"

section \<open>The message handler\<close>

text \<open>
  \<open>onmessage\<close>, with the payload \<open>event.data\<close> and the time \<open>now\<close> that
  \<open>new Date()\<close> reads. An empty payload is falsy and returns at once. A payload that
  \<open>JSON.parse\<close> rejects lands in the \<open>catch\<close>, which sets \<open>error\<close>. Nothing else
  in the \<open>try\<close> block can throw: every property read is on a truthy value.
\<close>

definition stats_today :: "jsval \<Rightarrow> hook \<Rightarrow> hook" where
  "stats_today parsed s =
     (let payload = (if truthy (get parsed ''payload'') then get parsed ''payload'' else JObj [])
      in s\<lparr>todayTotal :=
              Some (case get payload ''total'' of JNum n \<Rightarrow> n | _ \<Rightarrow> Finite 0),
            todayByCountry :=
              Some (case get payload ''countries'' of JArr cs \<Rightarrow> cs | _ \<Rightarrow> [])\<rparr>)"

definition onmessage :: "options \<Rightarrow> string \<Rightarrow> int \<Rightarrow> hook \<Rightarrow> hook" where
  "onmessage opts data now s =
     (if data = [] then s
      else case json_parse opts data of
        None \<Rightarrow> s\<lparr>error := Some ''Error parsing attack data''\<rparr>
      | Some parsed \<Rightarrow>
          (case parsed of
            JArr candidates \<Rightarrow>
              (let validAttacks = filter is_valid_attack candidates
               in if length validAttacks > 0
                  then s\<lparr>allAttacksRef := append_batch (allAttacksRef s) validAttacks,
                         attacks := validAttacks,
                         lastUpdate := Some now\<rparr>
                  else s)
          | _ \<Rightarrow>
              (if truthy parsed \<and> typeof parsed = ''object'' \<and> get parsed ''type'' = JStr ''statsToday''
               then stats_today parsed s
               else s)))"

section \<open>Connection handling\<close>

text \<open>
  \<open>connect\<close> clears the error and creates a socket; when the constructor throws, the
  \<open>catch\<close> sets the error and \<open>wsRef\<close> keeps its old value. The four handlers are
  attached to every socket and are never detached.
\<close>

definition connect :: "options \<Rightarrow> hook \<Rightarrow> hook" where
  "connect opts s =
     (if url_accepted opts
      then s\<lparr>error := None, wsRef := Some (length (sockets s)), sockets := sockets s @ [CONNECTING]\<rparr>
      else s\<lparr>error := Some ''Failed to create WebSocket connection''\<rparr>)"

definition onopen :: "hook \<Rightarrow> hook" where
  "onopen s = s\<lparr>isConnected := True, reconnectAttemptsRef := 0, error := None\<rparr>"

text \<open>\<open>setTimeout(() => connect(), reconnectInterval)\<close>: a new pending timer.\<close>

definition setTimeout :: "nat \<Rightarrow> hook \<Rightarrow> hook" where
  "setTimeout delay s =
     s\<lparr>reconnectTimeoutRef := Some (nextTimer s),
       timers := timers s @ [(nextTimer s, delay)],
       nextTimer := nextTimer s + 1\<rparr>"

definition onclose :: "options \<Rightarrow> hook \<Rightarrow> hook" where
  "onclose opts s =
     (let s1 = s\<lparr>isConnected := False\<rparr>
      in if reconnectAttemptsRef s1 < maxReconnectAttempts opts
         then setTimeout (reconnectInterval opts)
                (s1\<lparr>reconnectAttemptsRef := reconnectAttemptsRef s1 + 1\<rparr>)
         else s1\<lparr>error := Some ''Max reconnection attempts reached''\<rparr>)"

definition onerror :: "hook \<Rightarrow> hook" where
  "onerror s = s\<lparr>error := Some ''WebSocket connection error''\<rparr>"

text \<open>
  \<open>clearTimeout(h)\<close> removes the pending timer of that handle, if there is one.
  \<open>ws.close()\<close> starts the closing handshake of a socket that is not yet closing
  or closed; the browser delivers the socket's \<open>close\<close> event later.
\<close>

definition clearTimeout :: "nat \<Rightarrow> hook \<Rightarrow> hook" where
  "clearTimeout h s = s\<lparr>timers := filter (\<lambda>t. fst t \<noteq> h) (timers s)\<rparr>"

definition ws_close :: "nat \<Rightarrow> hook \<Rightarrow> hook" where
  "ws_close i s =
     (if i < length (sockets s) \<and> (sockets s ! i = CONNECTING \<or> sockets s ! i = OPEN)
      then s\<lparr>sockets := (sockets s)[i := CLOSING]\<rparr>
      else s)"

text \<open>The function the effect returns, run when the component is disposed.\<close>

definition cleanup :: "hook \<Rightarrow> hook" where
  "cleanup s =
     (let s1 = (case reconnectTimeoutRef s of None \<Rightarrow> s | Some h \<Rightarrow> clearTimeout h s)
      in case wsRef s1 of None \<Rightarrow> s1 | Some i \<Rightarrow> ws_close i s1)"

section \<open>The browser's events\<close>

text \<open>
  The hook runs only when the browser calls it: the effect and its cleanup, the four
  socket events, and a timer that fires. \<open>step\<close> is \<open>None\<close> for an event the
  browser cannot deliver in that state: \<open>open\<close> needs a connecting socket,
  \<open>message\<close> an open one, \<open>close\<close> and \<open>error\<close> one that is not closed yet, and
  only a pending timer fires.
\<close>

datatype event =
    Mount
  | Cleanup
  | WsOpen nat
  | WsMessage nat string int
  | WsError nat
  | WsClose nat
  | TimerFire nat

definition socket_is :: "hook \<Rightarrow> nat \<Rightarrow> ready_state \<Rightarrow> bool" where
  "socket_is s i r = (i < length (sockets s) \<and> sockets s ! i = r)"

definition set_socket :: "nat \<Rightarrow> ready_state \<Rightarrow> hook \<Rightarrow> hook" where
  "set_socket i r s = s\<lparr>sockets := (sockets s)[i := r]\<rparr>"

fun step :: "options \<Rightarrow> hook \<Rightarrow> event \<Rightarrow> hook option" where
  "step opts s Mount = Some (connect opts s)"
| "step opts s Cleanup = Some (cleanup s)"
| "step opts s (WsOpen i) =
     (if socket_is s i CONNECTING then Some (onopen (set_socket i OPEN s)) else None)"
| "step opts s (WsMessage i data now) =
     (if socket_is s i OPEN then Some (onmessage opts data now s) else None)"
| "step opts s (WsError i) =
     (if i < length (sockets s) \<and> \<not> socket_is s i CLOSED then Some (onerror s) else None)"
| "step opts s (WsClose i) =
     (if i < length (sockets s) \<and> \<not> socket_is s i CLOSED
      then Some (onclose opts (set_socket i CLOSED s)) else None)"
| "step opts s (TimerFire h) =
     (if h \<in> fst ` set (timers s)
      then Some (connect opts (s\<lparr>timers := filter (\<lambda>t. fst t \<noteq> h) (timers s)\<rparr>))
      else None)"

fun run :: "options \<Rightarrow> hook \<Rightarrow> event list \<Rightarrow> hook option" where
  "run opts s [] = Some s"
| "run opts s (e # es) = (case step opts s e of None \<Rightarrow> None | Some s' \<Rightarrow> run opts s' es)"

section \<open>Double arithmetic\<close>

text \<open>
  \<open>calculateStats\<close> divides twice, and a JavaScript number is an IEEE 754 binary64
  value. \<open>round64\<close> maps an exact result to the double that the operation
  returns: 53 significant bits, round to nearest, ties to even; the exponent of a
  subnormal result is held at \<open>-1022\<close>; a result that reaches \<open>2^1024\<close> is an
  infinity. \<open>floor_log2 n\<close> is the position of the leading bit of \<open>n\<close>, and
  \<open>exponent_of q\<close> the binary exponent of a positive \<open>q\<close>. Zero has no sign in
  the model: \<open>Finite 0\<close> stands for \<open>+0\<close>, the only zero that \<open>calculateStats\<close>
  can produce.
\<close>

function floor_log2 :: "int \<Rightarrow> int" where
  "floor_log2 n = (if n < 2 then 0 else 1 + floor_log2 (n div 2))"
  by pat_completeness auto
termination
  by (relation "measure nat") auto

declare floor_log2.simps [simp del]

definition exponent_of :: "rat \<Rightarrow> int" where
  "exponent_of q =
     (let e = floor_log2 (fst (quotient_of q)) - floor_log2 (snd (quotient_of q))
      in if 2 powi e \<le> q then e else e - 1)"

definition round_half_even :: "rat \<Rightarrow> int" where
  "round_half_even x =
     (let f = \<lfloor>x\<rfloor>; r = x - of_int f
      in if r < 1 / 2 then f else if 1 / 2 < r then f + 1 else if even f then f else f + 1)"

definition round64 :: "rat \<Rightarrow> jsnum" where
  "round64 q =
     (if q = 0 then Finite 0
      else let a = \<bar>q\<bar>;
               e = max (exponent_of a) (- 1022);
               ulp = 2 powi (e - 52);
               m = round_half_even (a / ulp)
           in if 1023 < e \<or> (e = 1023 \<and> 2 ^ 53 \<le> m)
              then (if 0 < q then PosInfinity else NegInfinity)
              else Finite (if 0 < q then of_int m * ulp else - (of_int m * ulp)))"

definition is_infinite :: "jsnum \<Rightarrow> bool" where
  "is_infinite x = (x = PosInfinity \<or> x = NegInfinity)"

definition negative :: "jsnum \<Rightarrow> bool" where
  "negative x = (case x of Finite q \<Rightarrow> q < 0 | NegInfinity \<Rightarrow> True | _ \<Rightarrow> False)"

definition signed_infinity :: "bool \<Rightarrow> jsnum" where
  "signed_infinity neg = (if neg then NegInfinity else PosInfinity)"

text \<open>
  The operator \<open>/\<close> on numbers: \<open>NaN\<close> from a \<open>NaN\<close> operand, from
  \<open>\<infinity>/\<infinity>\<close> and from \<open>0/0\<close>; an infinity from an infinite dividend and
  from a division of a non-zero number by zero; zero from a finite dividend and an
  infinite divisor; otherwise the exact quotient, rounded.
\<close>

definition js_div :: "jsnum \<Rightarrow> jsnum \<Rightarrow> jsnum" where
  "js_div x y =
     (if x = NaN \<or> y = NaN then NaN
      else if is_infinite x
        then (if is_infinite y then NaN else signed_infinity (negative x \<noteq> negative y))
      else if is_infinite y then Finite 0
      else case (x, y) of
        (Finite a, Finite b) \<Rightarrow>
          if b = 0 then (if a = 0 then NaN else signed_infinity (a < 0))
          else round64 (a / b)
      | _ \<Rightarrow> NaN)"

text \<open>The comparison \<open>x > 0\<close>, and what a rate must be: not negative, not \<open>NaN\<close>.\<close>

definition positive :: "jsnum \<Rightarrow> bool" where
  "positive x = (case x of Finite q \<Rightarrow> 0 < q | PosInfinity \<Rightarrow> True | _ \<Rightarrow> False)"


section \<open>The engine\<close>

text \<open>
  A count in a dictionary is a number, or, as it turns out below, a string. What
  the language leaves to the engine, or defines outside the repository, is a
  parameter of the model: \<open>Number.prototype.toString\<close>; the source text that
  \<open>Function.prototype.toString\<close> gives for the built-in function found under a
  property name of \<open>Object.prototype\<close>; and the order in which \<open>sort\<close> leaves
  an array whose comparator is not consistent.
\<close>

datatype count = Count nat | Text string

type_synonym dict = "(string \<times> count) list"

record engine =
  number_to_string :: "jsnum \<Rightarrow> string"
  function_source :: "string \<Rightarrow> string"
  sort_order :: "dict \<Rightarrow> dict"

section \<open>Property keys\<close>

text \<open>
  \<open>dict[v]\<close> turns \<open>v\<close> into a property key with \<open>ToString\<close>. The validator
  does not look at \<open>type\<close> or \<open>country\<close>, so any decoded value can arrive here.
  \<open>None\<close> is the \<open>TypeError\<close> that \<open>ToPrimitive\<close> throws for an object whose own
  \<open>toString\<close> property (a decoded value, never a function) hides the inherited
  method. An array is joined with commas, \<open>null\<close> and \<open>undefined\<close> elements
  giving the empty string.
\<close>

fun join_comma :: "string option list \<Rightarrow> string option" where
  "join_comma [] = Some []"
| "join_comma [x] = x"
| "join_comma (x # y # ys) =
     (case x of None \<Rightarrow> None
      | Some a \<Rightarrow> (case join_comma (y # ys) of None \<Rightarrow> None | Some b \<Rightarrow> Some (a @ '','' @ b)))"

fun to_string :: "engine \<Rightarrow> jsval \<Rightarrow> string option" where
  "to_string eng JUndefined = Some ''undefined''"
| "to_string eng JNull = Some ''null''"
| "to_string eng (JBool b) = Some (if b then ''true'' else ''false'')"
| "to_string eng (JNum n) = Some (number_to_string eng n)"
| "to_string eng (JStr s) = Some s"
| "to_string eng (JArr xs) =
     join_comma (map (\<lambda>x. if x = JUndefined \<or> x = JNull then Some [] else to_string eng x) xs)"
| "to_string eng (JObj kvs) =
     (if map_of kvs ''toString'' = None then Some ''[object Object]'' else None)"

text \<open>
  The own property names of \<open>Object.prototype\<close>. A count dictionary is an object
  literal, so \<open>dict[k] || 0\<close> reads the inherited member for these names.
\<close>

definition object_prototype_names :: "string list" where
  "object_prototype_names =
     [''constructor'', ''__defineGetter__'', ''__defineSetter__'', ''hasOwnProperty'',
      ''__lookupGetter__'', ''__lookupSetter__'', ''isPrototypeOf'', ''propertyIsEnumerable'',
      ''toString'', ''valueOf'', ''__proto__'', ''toLocaleString'']"

text \<open>
  An array index is the canonical decimal form of a number below \<open>2^32 - 1\<close>.
  \<open>Object.entries\<close> lists an object's array-index keys first, in ascending numeric
  order, and then its other string keys in the order they were created.
\<close>

definition is_digit :: "char \<Rightarrow> bool" where
  "is_digit c = (c \<in> set ''0123456789'')"

definition digit_value :: "char \<Rightarrow> nat" where
  "digit_value c = of_char c - of_char CHR ''0''"

definition numeric_value :: "string \<Rightarrow> nat" where
  "numeric_value s = foldl (\<lambda>n c. 10 * n + digit_value c) 0 s"

definition is_array_index :: "string \<Rightarrow> bool" where
  "is_array_index s =
     (s \<noteq> [] \<and> list_all is_digit s \<and> (s = ''0'' \<or> hd s \<noteq> CHR ''0'') \<and>
      numeric_value s < 2 ^ 32 - 1)"

definition object_entries :: "dict \<Rightarrow> dict" where
  "object_entries d =
     sort_key (\<lambda>e. numeric_value (fst e)) (filter (\<lambda>e. is_array_index (fst e)) d)
     @ filter (\<lambda>e. \<not> is_array_index (fst e)) d"

section \<open>The statistics\<close>

text \<open>
  \<open>dict[k] = (dict[k] || 0) + 1\<close> on a dictionary kept as the list of its own
  properties in creation order: a new key goes to the end, a known key keeps its
  place. A number is incremented. For a name of \<open>Object.prototype\<close> the first
  read finds the inherited function, which is truthy, and \<open>+ 1\<close> appends \<open>1\<close> to
  its source text; from then on the own property is that string and every further
  occurrence appends another \<open>1\<close>. The name \<open>__proto__\<close> is an accessor: the
  read gives the prototype object and the assignment of a string is ignored, so
  the dictionary never gets this key.
\<close>

definition store :: "dict \<Rightarrow> string \<Rightarrow> count \<Rightarrow> dict" where
  "store d k v = map (\<lambda>e. if fst e = k then (k, v) else e) d"

definition incr :: "engine \<Rightarrow> dict \<Rightarrow> string \<Rightarrow> dict" where
  "incr eng d k =
     (case map_of d k of
        Some (Count c) \<Rightarrow> store d k (Count ((if c = 0 then 0 else c) + 1))
      | Some (Text t) \<Rightarrow> store d k (if t = [] then Count (0 + 1) else Text (t @ ''1''))
      | None \<Rightarrow>
          if k = ''__proto__'' then d
          else if k \<in> set object_prototype_names
            then d @ [(k, Text (function_source eng k @ ''1''))]
            else d @ [(k, Count (0 + 1))])"

record counters =
  sourceCountryCount :: dict
  targetCountryCount :: dict
  attackTypeCount :: dict

text \<open>\<open>geo?.country || 'Unknown'\<close>.\<close>

definition country_or_unknown :: "jsval \<Rightarrow> jsval" where
  "country_or_unknown geo =
     (let country = (if geo = JUndefined \<or> geo = JNull then JUndefined else get geo ''country'')
      in if truthy country then country else JStr ''Unknown'')"

text \<open>
  The three keys of one attack, as the dictionaries see them:
  \<open>attack.src_geo?.country || 'Unknown'\<close>, the same for \<open>dst_geo\<close>, and
  \<open>attack.type\<close>, each turned into a property key.
\<close>

definition source_key :: "engine \<Rightarrow> jsval \<Rightarrow> string option" where
  "source_key eng attack = to_string eng (country_or_unknown (get attack ''src_geo''))"

definition target_key :: "engine \<Rightarrow> jsval \<Rightarrow> string option" where
  "target_key eng attack = to_string eng (country_or_unknown (get attack ''dst_geo''))"

definition type_key :: "engine \<Rightarrow> jsval \<Rightarrow> string option" where
  "type_key eng attack = to_string eng (get attack ''type'')"

text \<open>
  The body of \<open>allAttacks.forEach\<close>. \<open>None\<close> is a thrown \<open>TypeError\<close>: a key that
  cannot be turned into a string, or an element that is \<open>null\<close> or \<open>undefined\<close>.
\<close>

definition count_attack :: "engine \<Rightarrow> counters \<Rightarrow> jsval \<Rightarrow> counters option" where
  "count_attack eng c attack =
     (if attack = JUndefined \<or> attack = JNull then None
      else case source_key eng attack of
        None \<Rightarrow> None
      | Some srcCountry \<Rightarrow>
          (case target_key eng attack of
            None \<Rightarrow> None
          | Some dstCountry \<Rightarrow>
              (case type_key eng attack of
                None \<Rightarrow> None
              | Some ty \<Rightarrow>
                  Some (c\<lparr>sourceCountryCount := incr eng (sourceCountryCount c) srcCountry,
                          targetCountryCount := incr eng (targetCountryCount c) dstCountry,
                          attackTypeCount := incr eng (attackTypeCount c) ty\<rparr>))))"

fun forEach :: "('s \<Rightarrow> 'a \<Rightarrow> 's option) \<Rightarrow> 's \<Rightarrow> 'a list \<Rightarrow> 's option" where
  "forEach f s [] = Some s"
| "forEach f s (x # xs) = (case f s x of None \<Rightarrow> None | Some s' \<Rightarrow> forEach f s' xs)"

text \<open>
  \<open>xs.sort(cmp)\<close> for a consistent comparator, where it is stable: an element
  moves in front of the elements it compares less than or equal to, and those were
  behind it already.
\<close>

fun insert_sorted :: "('a \<Rightarrow> 'a \<Rightarrow> int) \<Rightarrow> 'a \<Rightarrow> 'a list \<Rightarrow> 'a list" where
  "insert_sorted cmp x [] = [x]"
| "insert_sorted cmp x (y # ys) =
     (if cmp x y \<le> 0 then x # y # ys else y # insert_sorted cmp x ys)"

definition js_sort :: "('a \<Rightarrow> 'a \<Rightarrow> int) \<Rightarrow> 'a list \<Rightarrow> 'a list" where
  "js_sort cmp xs = foldr (insert_sorted cmp) xs []"

text \<open>
  The comparator \<open>(a, b) => b.count - a.count\<close> on two numbers. With a string
  count the difference is \<open>NaN\<close>; then the comparator is not a consistent
  comparison function, the order of the sorted array is left to the engine, and
  the array is some permutation of the entries: the one the engine's \<open>sort_order\<close>
  gives.
\<close>

fun is_count :: "count \<Rightarrow> bool" where
  "is_count (Count n) = True"
| "is_count (Text t) = False"

fun count_of :: "count \<Rightarrow> nat" where
  "count_of (Count n) = n"
| "count_of (Text t) = 0"

definition by_count :: "string \<times> count \<Rightarrow> string \<times> count \<Rightarrow> int" where
  "by_count a b = int (count_of (snd b)) - int (count_of (snd a))"

definition arrange :: "(dict \<Rightarrow> dict) \<Rightarrow> dict \<Rightarrow> dict" where
  "arrange order entries =
     (if mset (order entries) = mset entries then order entries else entries)"

definition ranked :: "engine \<Rightarrow> dict \<Rightarrow> dict" where
  "ranked eng d =
     (let entries = object_entries d
      in if list_all (\<lambda>e. is_count (snd e)) entries
         then js_sort by_count entries
         else arrange (sort_order eng) entries)"

record stats =
  totalAttacks :: nat
  attacksPerMinute :: jsnum
  topSourceCountries :: "(string \<times> count) list"
  topTargetCountries :: "(string \<times> count) list"
  attackTypes :: "(string \<times> count) list"

text \<open>
  \<open>calculateStats\<close>, with the clock reading \<open>now\<close> and \<open>startTimeRef.current\<close>
  as arguments, both time values, which are whole numbers of milliseconds. The
  subtraction and the two divisions are the double operations. The function either
  throws a \<open>TypeError\<close> in the loop or returns the statistics.
\<close>

datatype failure = TypeError

definition calculateStats :: "engine \<Rightarrow> int \<Rightarrow> int \<Rightarrow> jsval list \<Rightarrow> failure + stats" where
  "calculateStats eng now start allAttacks =
     (let timeDiff = js_div (round64 (of_int now - of_int start)) (Finite (1000 * 60))
      in case forEach (count_attack eng)
                \<lparr>sourceCountryCount = [], targetCountryCount = [], attackTypeCount = []\<rparr>
                allAttacks of
           None \<Rightarrow> Inl TypeError
         | Some c \<Rightarrow>
             Inr \<lparr>totalAttacks = length allAttacks,
                   attacksPerMinute =
                     (if positive timeDiff
                      then js_div (Finite (of_nat (length allAttacks))) timeDiff
                      else Finite 0),
                   topSourceCountries = ranked eng (sourceCountryCount c),
                   topTargetCountries = ranked eng (targetCountryCount c),
                   attackTypes = ranked eng (attackTypeCount c)\<rparr>)"

section \<open>Message sequences\<close>

text \<open>
  What one payload contributes to the buffer: the candidates of an array that pass
  the validator, and nothing for any other payload. \<open>deliver\<close> hands a sequence of
  payloads, each with its arrival time, to \<open>onmessage\<close> in order.
\<close>

definition valid_batch :: "options \<Rightarrow> string \<Rightarrow> jsval list" where
  "valid_batch opts data =
     (if data = [] then []
      else case json_parse opts data of
        Some (JArr candidates) \<Rightarrow> filter is_valid_attack candidates
      | _ \<Rightarrow> [])"

definition deliver :: "options \<Rightarrow> hook \<Rightarrow> (string \<times> int) list \<Rightarrow> hook" where
  "deliver opts s msgs = foldl (\<lambda>s' m. onmessage opts (fst m) (snd m) s') s msgs"

section \<open>What the application shows\<close>

text \<open>
  The three branches of \<open>App\<close>: the error text is on screen when \<open>error\<close> is set
  and the hook is not connected; without an error a hook that is not connected shows
  the loading screen; otherwise the dashboard.
\<close>

datatype view = ErrorScreen string | LoadingScreen | Dashboard

definition app_view :: "hook \<Rightarrow> view" where
  "app_view s =
     (case error s of
        None \<Rightarrow> if \<not> isConnected s then LoadingScreen else Dashboard
      | Some e \<Rightarrow>
          if e \<noteq> [] \<and> \<not> isConnected s then ErrorScreen e
          else if \<not> isConnected s \<and> e = [] then LoadingScreen
          else Dashboard)"

section \<open>Reconnection scenarios\<close>

text \<open>
  \<open>closures n\<close> is the run in which the hook connects, the connection opens, and
  then \<open>n\<close> sockets in a row close: socket \<open>0\<close> first, and after each closure the
  retry timer fires and the socket it creates closes without opening.
  \<open>retrying opts t0 n\<close> is the state with \<open>n\<close> closed sockets, the counter at
  \<open>n\<close> and the \<open>n\<close>-th retry timer pending. A state is exhausted when the
  hook has given up: the error of the last branch of \<open>onclose\<close> is set and no timer
  is pending.
\<close>

fun closures :: "nat \<Rightarrow> event list" where
  "closures 0 = [Mount, WsOpen 0]"
| "closures (Suc n) = closures n @ (if n = 0 then [] else [TimerFire n]) @ [WsClose n]"

definition retrying :: "options \<Rightarrow> int \<Rightarrow> nat \<Rightarrow> hook" where
  "retrying opts t0 n =
     (initial t0)\<lparr>wsRef := Some (n - 1), reconnectAttemptsRef := n, reconnectTimeoutRef := Some n,
        sockets := replicate n CLOSED, timers := [(n, reconnectInterval opts)], nextTimer := n + 1\<rparr>"

definition exhausted :: "hook \<Rightarrow> bool" where
  "exhausted s =
     (\<not> isConnected s \<and> error s = Some ''Max reconnection attempts reached'' \<and> timers s = [])"

fun is_open :: "event \<Rightarrow> bool" where
  "is_open (WsOpen i) = True"
| "is_open e = False"

section \<open>Rankings\<close>

text \<open>
  The words in which the grouped lists are described. \<open>first_index ks k\<close> is the
  position at which the key \<open>k\<close> first occurs in the key sequence \<open>ks\<close> of the
  buffer. \<open>first_seen_ranking\<close> follows the specification: numeric counts in
  descending order, equal counts in the order of first occurrence. \<open>key_before\<close>
  is the order in which \<open>Object.entries\<close> lists keys, and \<open>entries_ranking\<close> is
  the ranking with ties in that order. \<open>tally\<close> is what the dictionary holds for
  a key after the loop, and \<open>groups_of\<close> says which entries a list holds: one for
  each key that occurs, \<open>__proto__\<close> apart, with its tally. \<open>own_keys\<close> holds of a
  key sequence without a name of \<open>Object.prototype\<close>.
\<close>

fun first_index :: "'a list \<Rightarrow> 'a \<Rightarrow> nat" where
  "first_index [] k = 0"
| "first_index (x # xs) k = (if x = k then 0 else Suc (first_index xs k))"




definition tally :: "engine \<Rightarrow> string list \<Rightarrow> string \<Rightarrow> count" where
  "tally eng ks k =
     (if k \<in> set object_prototype_names
      then Text (function_source eng k @ replicate (count_list ks k) CHR ''1'')
      else Count (count_list ks k))"



text \<open>
  The key sequences of a buffer, and the attacks on which the loop of
  \<open>calculateStats\<close> does not throw: those with three keys.
\<close>

definition keys_of :: "(jsval \<Rightarrow> string option) \<Rightarrow> jsval list \<Rightarrow> string list" where
  "keys_of key allAttacks = map (\<lambda>attack. case key attack of None \<Rightarrow> [] | Some k \<Rightarrow> k) allAttacks"


section \<open>Example events\<close>

text \<open>
  The event of the specification's end-to-end example, with the two countries and
  the \<open>type\<close> left open:
  \<^verbatim>\<open>{src_geo:{lat:1,lon:2,country:src}, dst_geo:{lat:3,lon:4,country:dst}, type:ty}\<close>,
  and the same event without a \<open>type\<close>.
\<close>

definition example_attack :: "string \<Rightarrow> string \<Rightarrow> jsval \<Rightarrow> jsval" where
  "example_attack src dst ty =
     JObj [(''src_geo'', JObj [(''lat'', JNum (Finite 1)), (''lon'', JNum (Finite 2)), (''country'', JStr src)]),
           (''dst_geo'', JObj [(''lat'', JNum (Finite 3)), (''lon'', JNum (Finite 4)), (''country'', JStr dst)]),
           (''type'', ty)]"

definition untyped_attack :: "string \<Rightarrow> string \<Rightarrow> jsval" where
  "untyped_attack src dst =
     JObj [(''src_geo'', JObj [(''lat'', JNum (Finite 1)), (''lon'', JNum (Finite 2)), (''country'', JStr src)]),
           (''dst_geo'', JObj [(''lat'', JNum (Finite 3)), (''lon'', JNum (Finite 4)), (''country'', JStr dst)])]"

text \<open>
  An engine for the examples. Its text for a built-in function is the one V8
  gives, \<^verbatim>\<open>function NAME() { [native code] }\<close>, where the function under
  \<open>constructor\<close> is named \<open>Object\<close>. No example has a number as a key or more
  than one entry beside a string count, so the other two fields are never
  consulted: the non-finite numbers are rendered as the language does, and the
  order of an array with an inconsistent comparator is left as it is.
\<close>

definition example_engine :: engine where
  "example_engine =
     \<lparr>number_to_string =
        (\<lambda>n. case n of Finite q \<Rightarrow> [] | PosInfinity \<Rightarrow> ''Infinity''
              | NegInfinity \<Rightarrow> ''-Infinity'' | NaN \<Rightarrow> ''NaN''),
      function_source =
        (\<lambda>k. ''function '' @ (if k = ''constructor'' then ''Object'' else k) @ ''() { [native code] }''),
      sort_order = (\<lambda>entries. entries)\<rparr>"

section \<open>Properties of the validator\<close>

lemma typeof_number: "typeof v = ''number'' \<longleftrightarrow> is_number v"
  by (cases v) simp_all

lemma get_defined_object: "get v k \<noteq> JUndefined \<Longrightarrow> is_object v"
  by (cases v) simp_all

lemma number_read_geo_point:
  "is_number (get g ''lon'') \<and> is_number (get g ''lat'') \<longleftrightarrow> geo_point g"
  by (cases g) (simp_all add: geo_point_def)

lemma geo_point_truthy: "geo_point g \<Longrightarrow> truthy g"
  by (cases g) (simp_all add: geo_point_def)

lemma geo_point_candidate:
  "geo_point (get attack ''src_geo'') \<Longrightarrow> truthy attack \<and> typeof attack = ''object''"
  by (cases attack) (simp_all add: geo_point_def)

lemma valid_attack_shape:
  "is_valid_attack attack \<longleftrightarrow>
     is_object attack \<and> geo_point (get attack ''src_geo'') \<and> geo_point (get attack ''dst_geo'')"
proof
  assume v: "is_valid_attack attack"
  then have s: "geo_point (get attack ''src_geo'')" and d: "geo_point (get attack ''dst_geo'')"
    by (simp_all add: is_valid_attack_def typeof_number flip: number_read_geo_point)
  from s have "get attack ''src_geo'' \<noteq> JUndefined"
    by (auto simp: geo_point_def)
  then have "is_object attack" by (rule get_defined_object)
  with s d show "is_object attack \<and> geo_point (get attack ''src_geo'') \<and> geo_point (get attack ''dst_geo'')"
    by simp
next
  assume r: "is_object attack \<and> geo_point (get attack ''src_geo'') \<and> geo_point (get attack ''dst_geo'')"
  then have s: "geo_point (get attack ''src_geo'')" and d: "geo_point (get attack ''dst_geo'')"
    by simp_all
  from s d geo_point_candidate [OF s] geo_point_truthy [OF s] geo_point_truthy [OF d]
  show "is_valid_attack attack"
    by (simp add: is_valid_attack_def typeof_number number_read_geo_point [symmetric])
qed

text \<open>
  C2, as the code has it. The validator accepts a candidate exactly when it is an
  object whose \<open>src_geo\<close> and \<open>dst_geo\<close> are objects with numeric \<open>lon\<close> and
  \<open>lat\<close>; the type test \<open>typeof x === 'number'\<close> does not look at the value, so
  finiteness is not required.
\<close>

theorem is_valid_attack_iff:
  "is_valid_attack attack \<longleftrightarrow>
     is_object attack \<and> geo_point (get attack ''src_geo'') \<and> geo_point (get attack ''dst_geo'')"
  by (rule valid_attack_shape)

theorem is_valid_attack_iff_witness:
  "is_valid_attack (JObj [(''src_geo'', JObj [(''lon'', JNum (Finite 2)), (''lat'', JNum (Finite 1))]),
                          (''dst_geo'', JObj [(''lon'', JNum NaN), (''lat'', JNum (Finite 3))])])
   \<and> \<not> is_valid_attack (JObj [(''src_geo'', JObj [(''lon'', JStr ''2''), (''lat'', JNum (Finite 1))]),
                          (''dst_geo'', JObj [(''lon'', JNum (Finite 4)), (''lat'', JNum (Finite 3))])])"
  by (simp add: is_valid_attack_iff geo_point_def)

text \<open>
  C2, as the specification states it, fails: the decoded form of
  \<^verbatim>\<open>{"src_geo":{"lon":1e999,"lat":0},"dst_geo":{"lon":0,"lat":0}}\<close> has an infinite
  source longitude and passes the validator.
\<close>

theorem is_valid_attack_infinite_counterexample:
  "is_valid_attack (JObj [(''src_geo'', JObj [(''lon'', JNum PosInfinity), (''lat'', JNum (Finite 0))]),
                          (''dst_geo'', JObj [(''lon'', JNum (Finite 0)), (''lat'', JNum (Finite 0))])])
   \<and> \<not> all_coordinates_finite
         (JObj [(''src_geo'', JObj [(''lon'', JNum PosInfinity), (''lat'', JNum (Finite 0))]),
                (''dst_geo'', JObj [(''lon'', JNum (Finite 0)), (''lat'', JNum (Finite 0))])])"
  by (simp add: is_valid_attack_def all_coordinates_finite_def)

section \<open>Properties of the rolling buffer\<close>

lemma slice_last_length: "length (slice_last n xs) \<le> n"
  by (simp add: slice_last_def)

lemma slice_last_short: "length xs \<le> n \<Longrightarrow> slice_last n xs = xs"
  by (simp add: slice_last_def)

lemma slice_last_append: "slice_last n (slice_last n xs @ ys) = slice_last n (xs @ ys)"
  by (cases "length xs \<le> n") (simp_all add: slice_last_def add.commute)

lemma append_batch_slice: "append_batch buffer batch = slice_last 1000 (buffer @ batch)"
  by (simp add: append_batch_def Let_def slice_last_def)

lemma onmessage_buffer:
  "length (allAttacksRef s) \<le> 1000 \<Longrightarrow>
   allAttacksRef (onmessage opts data now s) = slice_last 1000 (allAttacksRef s @ valid_batch opts data)"
  by (auto simp: onmessage_def valid_batch_def stats_today_def Let_def append_batch_slice slice_last_short
      split: option.splits jsval.splits)

lemma deliver_buffer:
  "length (allAttacksRef s) \<le> 1000 \<Longrightarrow>
   allAttacksRef (deliver opts s msgs) =
     slice_last 1000 (allAttacksRef s @ concat (map (\<lambda>m. valid_batch opts (fst m)) msgs))"
proof (induction msgs arbitrary: s)
  case Nil
  then show ?case by (simp add: deliver_def slice_last_short)
next
  case (Cons m msgs)
  let ?s = "onmessage opts (fst m) (snd m) s"
  have b: "allAttacksRef ?s = slice_last 1000 (allAttacksRef s @ valid_batch opts (fst m))"
    using Cons.prems by (rule onmessage_buffer)
  then have "length (allAttacksRef ?s) \<le> 1000"
    by (simp add: slice_last_length)
  then have "allAttacksRef (deliver opts ?s msgs) =
     slice_last 1000 (allAttacksRef ?s @ concat (map (\<lambda>m. valid_batch opts (fst m)) msgs))"
    by (rule Cons.IH)
  then show ?case
    by (simp add: deliver_def b slice_last_append)
qed

text \<open>
  C1. From the first render on, whatever payloads arrive: let \<open>all\<close> be the events
  that passed the validator, batch after batch in the order they arrived. The buffer
  is \<open>all\<close> without its first \<open>length all - 1000\<close> elements. So it holds at
  most 1000 events, exactly \<open>min 1000 (length all)\<close> of them; they are the most
  recent ones in arrival order; and what is missing is the oldest part of \<open>all\<close>,
  taken from the front.
\<close>

theorem rolling_buffer_bounded:
  "allAttacksRef (deliver opts (initial t0) msgs) =
     drop (length (concat (map (\<lambda>m. valid_batch opts (fst m)) msgs)) - 1000)
       (concat (map (\<lambda>m. valid_batch opts (fst m)) msgs))
   \<and> length (allAttacksRef (deliver opts (initial t0) msgs)) =
       min 1000 (length (concat (map (\<lambda>m. valid_batch opts (fst m)) msgs)))
   \<and> length (allAttacksRef (deliver opts (initial t0) msgs)) \<le> 1000
   \<and> take (length (concat (map (\<lambda>m. valid_batch opts (fst m)) msgs)) - 1000)
         (concat (map (\<lambda>m. valid_batch opts (fst m)) msgs))
       @ allAttacksRef (deliver opts (initial t0) msgs)
     = concat (map (\<lambda>m. valid_batch opts (fst m)) msgs)"
proof -
  let ?all = "concat (map (\<lambda>m. valid_batch opts (fst m)) msgs)"
  have "length (allAttacksRef (initial t0)) \<le> 1000" by (simp add: initial_def)
  then have "allAttacksRef (deliver opts (initial t0) msgs) =
     slice_last 1000 (allAttacksRef (initial t0) @ ?all)"
    by (rule deliver_buffer)
  then have b: "allAttacksRef (deliver opts (initial t0) msgs) = drop (length ?all - 1000) ?all"
    by (simp add: initial_def slice_last_def)
  have l: "length (drop (length ?all - 1000) ?all) = min 1000 (length ?all)"
    by simp
  have t: "take (length ?all - 1000) ?all @ drop (length ?all - 1000) ?all = ?all"
    by (rule append_take_drop_id)
  from b l t show ?thesis by (simp only: min.cobounded1 simp_thms)
qed

section \<open>Properties of the message handler\<close>

text \<open>
  C7, as the code has it. A payload that is not empty and that \<open>JSON.parse\<close>
  rejects changes one thing: \<open>error\<close> becomes \<open>Error parsing attack data\<close>. The
  buffer, the exposed attacks, the overlays, the time of the last update, the
  sockets, the timers and the retry counter stay as they were. An empty payload
  changes nothing at all.
\<close>

theorem decode_failure_sets_error:
  "(data \<noteq> [] \<and> json_parse opts data = None \<longrightarrow>
      onmessage opts data now s = s\<lparr>error := Some ''Error parsing attack data''\<rparr>)
   \<and> (data = [] \<longrightarrow> onmessage opts data now s = s)"
  by (simp add: onmessage_def)

theorem decode_failure_sets_error_witness:
  "''{'' \<noteq> [] \<and> json_parse (default_options (map_of [(''[]'', JArr [])])) ''{'' = None
   \<and> onmessage (default_options (map_of [(''[]'', JArr [])])) ''{'' 7 (initial 0)
       = (initial 0)\<lparr>error := Some ''Error parsing attack data''\<rparr>
   \<and> onmessage (default_options (map_of [(''[]'', JArr [])])) [] 7 (initial 0) = initial 0"
  using decode_failure_sets_error [of "''{''" "default_options (map_of [(''[]'', JArr [])])" 7 "initial 0"]
    decode_failure_sets_error [of "[]" "default_options (map_of [(''[]'', JArr [])])" 7 "initial 0"]
  by (simp add: default_options_def)

text \<open>
  C7, as the specification states it, fails. The payload \<open>{\<close> does not decode; after
  it \<open>error\<close> is set, and when the socket closes next the application shows that
  text on its error screen.
\<close>

theorem decode_failure_visible_counterexample:
  "json_parse (default_options (map_of [(''[]'', JArr [])])) ''{'' = None
   \<and> map_option error
        (run (default_options (map_of [(''[]'', JArr [])])) (initial 0)
           [Mount, WsOpen 0, WsMessage 0 ''{'' 7])
       = Some (Some ''Error parsing attack data'')
   \<and> map_option app_view
        (run (default_options (map_of [(''[]'', JArr [])])) (initial 0)
           [Mount, WsOpen 0, WsMessage 0 ''{'' 7, WsClose 0])
       = Some (ErrorScreen ''Error parsing attack data'')"
  by (simp add: default_options_def initial_def connect_def onopen_def onmessage_def onclose_def
       setTimeout_def socket_is_def set_socket_def app_view_def Let_def)

text \<open>
  C8. An array payload none of whose candidates passes the validator leaves the
  whole state as it was: the buffer, the exposed attacks, the time of the last
  update, and with them the statistics computed from the state.
\<close>

theorem empty_batch_no_change:
  "json_parse opts data = Some (JArr candidates) \<Longrightarrow>
   \<forall>c \<in> set candidates. \<not> is_valid_attack c \<Longrightarrow>
   onmessage opts data now s = s"
  by (simp add: onmessage_def Let_def filter_empty_conv)

theorem empty_batch_no_change_witness:
  "json_parse (default_options (map_of [(''[null,{}]'', JArr [JNull, JObj []])])) ''[null,{}]''
     = Some (JArr [JNull, JObj []])
   \<and> \<not> is_valid_attack JNull \<and> \<not> is_valid_attack (JObj [])
   \<and> onmessage (default_options (map_of [(''[null,{}]'', JArr [JNull, JObj []])])) ''[null,{}]'' 7 (initial 0)
       = initial 0"
proof -
  let ?opts = "default_options (map_of [(''[null,{}]'', JArr [JNull, JObj []])])"
  have p: "json_parse ?opts ''[null,{}]'' = Some (JArr [JNull, JObj []])"
    by (simp add: default_options_def)
  have v: "\<forall>c \<in> set [JNull, JObj []]. \<not> is_valid_attack c"
    by (simp add: is_valid_attack_def)
  from empty_batch_no_change [OF p v, of 7 "initial 0"] p v show ?thesis
    by simp
qed

text \<open>
  C9. A payload that decodes to an object with \<open>type\<close> equal to \<open>statsToday\<close> and
  a \<open>payload\<close> object holding a numeric \<open>total\<close> \<open>t\<close> and an array \<open>countries\<close>
  \<open>cs\<close> sets the two overlays to exactly \<open>t\<close> and \<open>cs\<close>, whatever they held, and
  changes nothing else: the buffer is the same, and so are the statistics computed
  from it.
\<close>

theorem stats_today_replaces_overlay:
  "data \<noteq> [] \<Longrightarrow>
   json_parse opts data = Some (JObj kvs) \<Longrightarrow>
   map_of kvs ''type'' = Some (JStr ''statsToday'') \<Longrightarrow>
   map_of kvs ''payload'' = Some (JObj payload) \<Longrightarrow>
   map_of payload ''total'' = Some (JNum t) \<Longrightarrow>
   map_of payload ''countries'' = Some (JArr cs) \<Longrightarrow>
   onmessage opts data now s = s\<lparr>todayTotal := Some t, todayByCountry := Some cs\<rparr>
   \<and> allAttacksRef (onmessage opts data now s) = allAttacksRef s
   \<and> calculateStats eng clock (startTimeRef (onmessage opts data now s))
        (allAttacksRef (onmessage opts data now s))
      = calculateStats eng clock (startTimeRef s) (allAttacksRef s)"
  by (simp add: onmessage_def stats_today_def Let_def)

theorem stats_today_replaces_overlay_witness:
  "''{\"type\":\"statsToday\",\"payload\":{\"total\":42,\"countries\":[{\"country\":\"A\",\"count\":42}]}}'' \<noteq> []
   \<and> onmessage
        (default_options
          (map_of [(''{\"type\":\"statsToday\",\"payload\":{\"total\":42,\"countries\":[{\"country\":\"A\",\"count\":42}]}}'',
             JObj [(''type'', JStr ''statsToday''),
                   (''payload'', JObj [(''total'', JNum (Finite 42)),
                      (''countries'', JArr [JObj [(''country'', JStr ''A''), (''count'', JNum (Finite 42))]])])])]))
        ''{\"type\":\"statsToday\",\"payload\":{\"total\":42,\"countries\":[{\"country\":\"A\",\"count\":42}]}}''
        9
        ((initial 0)\<lparr>todayTotal := Some (Finite 7), todayByCountry := Some [JNull]\<rparr>)
      = (initial 0)\<lparr>todayTotal := Some (Finite 42),
           todayByCountry := Some [JObj [(''country'', JStr ''A''), (''count'', JNum (Finite 42))]]\<rparr>"
proof -
  let ?data = "''{\"type\":\"statsToday\",\"payload\":{\"total\":42,\"countries\":[{\"country\":\"A\",\"count\":42}]}}''"
  let ?cs = "[JObj [(''country'', JStr ''A''), (''count'', JNum (Finite 42))]]"
  let ?payload = "[(''total'', JNum (Finite 42)), (''countries'', JArr ?cs)]"
  let ?kvs = "[(''type'', JStr ''statsToday''), (''payload'', JObj ?payload)]"
  let ?opts = "default_options (map_of [(?data, JObj ?kvs)])"
  let ?s = "(initial 0)\<lparr>todayTotal := Some (Finite 7), todayByCountry := Some [JNull]\<rparr>"
  have d: "?data \<noteq> []" by simp
  have p: "json_parse ?opts ?data = Some (JObj ?kvs)" by (simp add: default_options_def)
  have t: "map_of ?kvs ''type'' = Some (JStr ''statsToday'')" by simp
  have q: "map_of ?kvs ''payload'' = Some (JObj ?payload)" by simp
  have n: "map_of ?payload ''total'' = Some (JNum (Finite 42))" by simp
  have c: "map_of ?payload ''countries'' = Some (JArr ?cs)" by simp
  from stats_today_replaces_overlay [OF d p t q n c, of 9 ?s] d show ?thesis
    by simp
qed

section \<open>Properties of the reconnection machine\<close>

lemma onclose_retry:
  "reconnectAttemptsRef s < maxReconnectAttempts opts \<Longrightarrow>
   onclose opts s =
     s\<lparr>isConnected := False,
       reconnectAttemptsRef := reconnectAttemptsRef s + 1,
       reconnectTimeoutRef := Some (nextTimer s),
       timers := timers s @ [(nextTimer s, reconnectInterval opts)],
       nextTimer := nextTimer s + 1\<rparr>"
  by (simp add: onclose_def setTimeout_def Let_def)

lemma onclose_exhausted:
  "maxReconnectAttempts opts \<le> reconnectAttemptsRef s \<Longrightarrow>
   onclose opts s = s\<lparr>isConnected := False, error := Some ''Max reconnection attempts reached''\<rparr>"
  by (simp add: onclose_def Let_def)

lemma step_no_schedule:
  "maxReconnectAttempts opts \<le> reconnectAttemptsRef s \<Longrightarrow> \<not> is_open e \<Longrightarrow>
   step opts s e = Some s' \<Longrightarrow>
   nextTimer s' = nextTimer s \<and> reconnectAttemptsRef s' = reconnectAttemptsRef s"
  by (cases e)
     (auto simp: connect_def cleanup_def clearTimeout_def ws_close_def onmessage_def stats_today_def
        onerror_def onclose_def set_socket_def Let_def
        split: if_splits option.splits jsval.splits)

lemma run_no_schedule:
  "maxReconnectAttempts opts \<le> reconnectAttemptsRef s \<Longrightarrow> list_all (\<lambda>e. \<not> is_open e) es \<Longrightarrow>
   run opts s es = Some s' \<Longrightarrow>
   nextTimer s' = nextTimer s \<and> reconnectAttemptsRef s' = reconnectAttemptsRef s"
proof (induction es arbitrary: s)
  case Nil
  then show ?case by simp
next
  case (Cons e es)
  from Cons.prems(3) obtain s1 where s1: "step opts s e = Some s1" and r: "run opts s1 es = Some s'"
    by (auto split: option.splits)
  from Cons.prems(1,2) s1
  have k: "nextTimer s1 = nextTimer s \<and> reconnectAttemptsRef s1 = reconnectAttemptsRef s"
    by (intro step_no_schedule [of opts s e s1]) simp_all
  with Cons.prems(1) have "maxReconnectAttempts opts \<le> reconnectAttemptsRef s1" by simp
  from Cons.IH [OF this _ r] Cons.prems(2) k show ?case by simp
qed

lemma run_append:
  "run opts s (es @ fs) = (case run opts s es of None \<Rightarrow> None | Some s' \<Rightarrow> run opts s' fs)"
  by (induction es arbitrary: s) (simp_all split: option.splits)

lemma first_closure:
  "url_accepted opts \<Longrightarrow> 0 < maxReconnectAttempts opts \<Longrightarrow>
   run opts (initial t0) (closures 1) = Some (retrying opts t0 1)"
  by (simp add: retrying_def initial_def connect_def onopen_def onclose_def setTimeout_def
        socket_is_def set_socket_def Let_def)

lemma retry_round:
  assumes "url_accepted opts" "0 < n" "n < maxReconnectAttempts opts"
  shows "run opts (retrying opts t0 n) [TimerFire n, WsClose n] = Some (retrying opts t0 (Suc n))"
proof -
  have l: "(replicate n CLOSED @ [CONNECTING])[n := CLOSED] = replicate (Suc n) CLOSED"
    by (simp add: list_update_append replicate_append_same)
  have c: "(replicate n CLOSED @ [CONNECTING]) ! n = CONNECTING"
    by (simp add: nth_append)
  from assms show ?thesis
    by (simp add: retrying_def initial_def connect_def onclose_def setTimeout_def
        socket_is_def set_socket_def Let_def l c)
qed

lemma closures_retrying:
  "url_accepted opts \<Longrightarrow> 0 < n \<Longrightarrow> n \<le> maxReconnectAttempts opts \<Longrightarrow>
   run opts (initial t0) (closures n) = Some (retrying opts t0 n)"
proof (induction n)
  case 0
  then show ?case by simp
next
  case (Suc n)
  show ?case
  proof (cases "n = 0")
    case True
    with Suc.prems first_closure [of opts t0] show ?thesis by simp
  next
    case False
    with Suc have r: "run opts (initial t0) (closures n) = Some (retrying opts t0 n)" by simp
    from False Suc.prems
    have "run opts (retrying opts t0 n) [TimerFire n, WsClose n] = Some (retrying opts t0 (Suc n))"
      by (intro retry_round) simp_all
    with False r show ?thesis
      by (simp add: run_append del: run.simps)
  qed
qed

lemma last_closure:
  assumes "url_accepted opts" "0 < maxReconnectAttempts opts"
  shows "run opts (retrying opts t0 (maxReconnectAttempts opts))
           [TimerFire (maxReconnectAttempts opts), WsClose (maxReconnectAttempts opts)] =
         Some ((retrying opts t0 (maxReconnectAttempts opts))
                \<lparr>wsRef := Some (maxReconnectAttempts opts),
                  sockets := replicate (Suc (maxReconnectAttempts opts)) CLOSED,
                  timers := [],
                  error := Some ''Max reconnection attempts reached''\<rparr>)"
proof -
  let ?n = "maxReconnectAttempts opts"
  have l: "(replicate ?n CLOSED @ [CONNECTING])[?n := CLOSED] = replicate (Suc ?n) CLOSED"
    by (simp add: list_update_append replicate_append_same)
  have c: "(replicate ?n CLOSED @ [CONNECTING]) ! ?n = CONNECTING"
    by (simp add: nth_append)
  from assms show ?thesis
    by (simp add: retrying_def initial_def connect_def onclose_def setTimeout_def
        socket_is_def set_socket_def Let_def l c)
qed

lemma closures_exhausted:
  assumes "url_accepted opts" "0 < maxReconnectAttempts opts"
  shows "\<exists>s. run opts (initial t0) (closures (Suc (maxReconnectAttempts opts))) = Some s
           \<and> exhausted s \<and> reconnectAttemptsRef s = maxReconnectAttempts opts"
proof -
  let ?n = "maxReconnectAttempts opts"
  from assms have "run opts (initial t0) (closures ?n) = Some (retrying opts t0 ?n)"
    by (intro closures_retrying) simp_all
  with assms last_closure [OF assms, of t0] show ?thesis
    by (simp add: run_append exhausted_def retrying_def initial_def del: run.simps)
qed

text \<open>
  C5, as the code has it. A closure that finds the counter below the maximum
  increments it and schedules exactly one timer; a closure that finds the counter
  at the maximum sets the error \<open>Max reconnection attempts reached\<close> and schedules
  nothing. From then on no event other than a socket opening changes the counter
  or schedules a timer. With a maximum of \<open>n > 0\<close>, the first \<open>n\<close> closures in a
  row each leave a retry pending, and closure \<open>n + 1\<close> leaves the machine exhausted.
\<close>

theorem reconnection_machine:
  "(reconnectAttemptsRef s < maxReconnectAttempts opts \<longrightarrow>
      onclose opts s =
        s\<lparr>isConnected := False,
          reconnectAttemptsRef := reconnectAttemptsRef s + 1,
          reconnectTimeoutRef := Some (nextTimer s),
          timers := timers s @ [(nextTimer s, reconnectInterval opts)],
          nextTimer := nextTimer s + 1\<rparr>)
   \<and> (maxReconnectAttempts opts \<le> reconnectAttemptsRef s \<longrightarrow>
      onclose opts s = s\<lparr>isConnected := False, error := Some ''Max reconnection attempts reached''\<rparr>)
   \<and> (maxReconnectAttempts opts \<le> reconnectAttemptsRef s \<and> list_all (\<lambda>e. \<not> is_open e) es
        \<and> run opts s es = Some s' \<longrightarrow>
      nextTimer s' = nextTimer s \<and> reconnectAttemptsRef s' = reconnectAttemptsRef s)
   \<and> (url_accepted opts \<and> 0 < maxReconnectAttempts opts \<longrightarrow>
      run opts (initial t0) (closures (maxReconnectAttempts opts))
        = Some (retrying opts t0 (maxReconnectAttempts opts))
      \<and> (\<exists>s. run opts (initial t0) (closures (Suc (maxReconnectAttempts opts))) = Some s
             \<and> exhausted s \<and> reconnectAttemptsRef s = maxReconnectAttempts opts))"
proof (intro conjI impI)
  assume "reconnectAttemptsRef s < maxReconnectAttempts opts"
  then show "onclose opts s =
        s\<lparr>isConnected := False,
          reconnectAttemptsRef := reconnectAttemptsRef s + 1,
          reconnectTimeoutRef := Some (nextTimer s),
          timers := timers s @ [(nextTimer s, reconnectInterval opts)],
          nextTimer := nextTimer s + 1\<rparr>"
    by (rule onclose_retry)
next
  assume "maxReconnectAttempts opts \<le> reconnectAttemptsRef s"
  then show "onclose opts s = s\<lparr>isConnected := False, error := Some ''Max reconnection attempts reached''\<rparr>"
    by (rule onclose_exhausted)
next
  assume a: "maxReconnectAttempts opts \<le> reconnectAttemptsRef s \<and> list_all (\<lambda>e. \<not> is_open e) es
        \<and> run opts s es = Some s'"
  then have k: "nextTimer s' = nextTimer s \<and> reconnectAttemptsRef s' = reconnectAttemptsRef s"
    by (intro run_no_schedule [of opts s es s']) simp_all
  from k show "nextTimer s' = nextTimer s" by simp
  from k show "reconnectAttemptsRef s' = reconnectAttemptsRef s" by simp
next
  assume a: "url_accepted opts \<and> 0 < maxReconnectAttempts opts"
  then show "run opts (initial t0) (closures (maxReconnectAttempts opts))
        = Some (retrying opts t0 (maxReconnectAttempts opts))"
    by (intro closures_retrying) simp_all
  from a show "\<exists>s. run opts (initial t0) (closures (Suc (maxReconnectAttempts opts))) = Some s
             \<and> exhausted s \<and> reconnectAttemptsRef s = maxReconnectAttempts opts"
    by (intro closures_exhausted) simp_all
qed

theorem reconnection_machine_witness:
  "reconnectAttemptsRef (retrying (default_options Map.empty) 0 9) < maxReconnectAttempts (default_options Map.empty)
   \<and> onclose (default_options Map.empty) (retrying (default_options Map.empty) 0 9)
     = (retrying (default_options Map.empty) 0 9)
         \<lparr>reconnectAttemptsRef := 10, reconnectTimeoutRef := Some 10,
           timers := [(9, 5000), (10, 5000)], nextTimer := 11\<rparr>
   \<and> maxReconnectAttempts (default_options Map.empty) \<le> reconnectAttemptsRef (retrying (default_options Map.empty) 0 10)
   \<and> onclose (default_options Map.empty) (retrying (default_options Map.empty) 0 10)
     = (retrying (default_options Map.empty) 0 10)\<lparr>error := Some ''Max reconnection attempts reached''\<rparr>
   \<and> list_all (\<lambda>e. \<not> is_open e) [Mount, WsClose 10]
   \<and> map_option (\<lambda>s. (nextTimer s, reconnectAttemptsRef s, exhausted s))
        (run (default_options Map.empty)
           ((retrying (default_options Map.empty) 0 10)\<lparr>timers := []\<rparr>) [Mount, WsClose 10])
       = Some (11, 10, True)
   \<and> url_accepted (default_options Map.empty) \<and> 0 < maxReconnectAttempts (default_options Map.empty)
   \<and> run (default_options Map.empty) (initial 0) (closures 10)
        = Some (retrying (default_options Map.empty) 0 10)
   \<and> (\<exists>s. run (default_options Map.empty) (initial 0) (closures 11) = Some s
          \<and> exhausted s \<and> reconnectAttemptsRef s = 10)"
proof -
  let ?D = "default_options Map.empty"
  let ?s = "(retrying ?D 0 10)\<lparr>timers := []\<rparr>"
  have l: "(replicate 10 CLOSED @ [CONNECTING])[10 := CLOSED] = replicate 10 CLOSED @ [CLOSED]"
    by (simp add: list_update_append)
  have c: "(replicate 10 CLOSED @ [CONNECTING]) ! 10 = CONNECTING"
    by (simp add: nth_append)
  obtain s' where r: "run ?D ?s [Mount, WsClose 10] = Some s'" and e: "exhausted s'"
    by (simp add: default_options_def retrying_def initial_def connect_def onclose_def
          socket_is_def set_socket_def exhausted_def Let_def l c)
  have a: "maxReconnectAttempts ?D \<le> reconnectAttemptsRef ?s"
    by (simp add: default_options_def retrying_def)
  have o: "list_all (\<lambda>e. \<not> is_open e) [Mount, WsClose 10]" by simp
  have u: "url_accepted ?D \<and> 0 < maxReconnectAttempts ?D" by (simp add: default_options_def)
  have m: "maxReconnectAttempts ?D = 10" by (simp add: default_options_def)
  from reconnection_machine [of "retrying ?D 0 9" ?D "[]" "retrying ?D 0 9" 0]
  have w1: "onclose ?D (retrying ?D 0 9)
     = (retrying ?D 0 9)\<lparr>reconnectAttemptsRef := 10, reconnectTimeoutRef := Some 10,
           timers := [(9, 5000), (10, 5000)], nextTimer := 11\<rparr>"
    by (simp add: default_options_def retrying_def initial_def)
  from reconnection_machine [of "retrying ?D 0 10" ?D "[]" "retrying ?D 0 10" 0]
  have w2: "onclose ?D (retrying ?D 0 10)
     = (retrying ?D 0 10)\<lparr>error := Some ''Max reconnection attempts reached''\<rparr>"
    by (simp add: default_options_def retrying_def initial_def)
  from reconnection_machine [of ?s ?D "[Mount, WsClose 10]" s' 0] a o r
  have w3: "nextTimer s' = 11 \<and> reconnectAttemptsRef s' = 10"
    by (simp add: retrying_def initial_def)
  from reconnection_machine [of "initial 0" ?D "[]" "initial 0" 0] u m
  have w4: "run ?D (initial 0) (closures 10) = Some (retrying ?D 0 10)
     \<and> (\<exists>s. run ?D (initial 0) (closures 11) = Some s \<and> exhausted s \<and> reconnectAttemptsRef s = 10)"
    by simp
  have h1: "reconnectAttemptsRef (retrying ?D 0 9) < maxReconnectAttempts ?D"
    by (simp add: default_options_def retrying_def)
  have h2: "maxReconnectAttempts ?D \<le> reconnectAttemptsRef (retrying ?D 0 10)"
    by (simp add: default_options_def retrying_def)
  from w1 w2 w3 w4 h1 h2 o u r e show ?thesis
    by simp
qed

text \<open>
  C5, as the specification states it, fails. With the default maximum of ten, the
  tenth closure in a row finds the counter at nine: it schedules the tenth retry,
  and no error is set. The machine is exhausted one closure later.
\<close>

theorem ten_closures_counterexample:
  "run (default_options Map.empty) (initial 0) (closures 10)
     = Some (retrying (default_options Map.empty) 0 10)
   \<and> \<not> exhausted (retrying (default_options Map.empty) 0 10)
   \<and> error (retrying (default_options Map.empty) 0 10) = None
   \<and> timers (retrying (default_options Map.empty) 0 10) = [(10, 5000)]"
proof -
  let ?D = "default_options Map.empty"
  have "url_accepted ?D" and "0 < (10::nat)" and "10 \<le> maxReconnectAttempts ?D"
    by (simp_all add: default_options_def)
  then have "run ?D (initial 0) (closures 10) = Some (retrying ?D 0 10)"
    by (rule closures_retrying)
  then show ?thesis
    by (simp add: exhausted_def retrying_def initial_def default_options_def)
qed

section \<open>Disposal\<close>

text \<open>
  C6, on the code. After the hook connected and the socket opened, the cleanup
  leaves socket \<open>0\<close> closing and no timer pending. It does not detach
  \<open>onclose\<close>: the close event that the cleanup itself causes runs \<open>onclose\<close>,
  which counts one attempt and schedules timer \<open>1\<close>; when that timer fires,
  \<open>connect\<close> creates socket \<open>1\<close>, which opens. So a reconnection is scheduled
  and made after disposal.
\<close>

theorem cleanup_reconnects:
  "run (default_options Map.empty) (initial 0) [Mount, WsOpen 0, Cleanup]
     = Some ((initial 0)\<lparr>isConnected := True, wsRef := Some 0, sockets := [CLOSING]\<rparr>)
   \<and> run (default_options Map.empty) (initial 0) [Mount, WsOpen 0, Cleanup, WsClose 0]
     = Some ((initial 0)\<lparr>wsRef := Some 0, reconnectAttemptsRef := 1, reconnectTimeoutRef := Some 1,
               sockets := [CLOSED], timers := [(1, 5000)], nextTimer := 2\<rparr>)
   \<and> run (default_options Map.empty) (initial 0) [Mount, WsOpen 0, Cleanup, WsClose 0, TimerFire 1, WsOpen 1]
     = Some ((initial 0)\<lparr>isConnected := True, wsRef := Some 1, reconnectAttemptsRef := 0,
               reconnectTimeoutRef := Some 1, sockets := [CLOSED, OPEN], timers := [], nextTimer := 2\<rparr>)"
  by (simp add: default_options_def initial_def connect_def onopen_def onclose_def cleanup_def
        ws_close_def setTimeout_def socket_is_def set_socket_def Let_def)

section \<open>Properties of the count dictionaries\<close>

lemma store_keys: "map fst (store d k v) = map fst d"
  by (induction d) (simp_all add: store_def)

lemma store_lookup:
  "map_of (store d k v) x = (if x = k then (case map_of d k of None \<Rightarrow> None | Some c \<Rightarrow> Some v) else map_of d x)"
  by (induction d) (auto simp: store_def split: option.splits)

lemma lookup_key: "map_of d k = Some c \<Longrightarrow> k \<in> set (map fst d)"
  by (force dest: map_of_SomeD)

lemma incr_keys:
  "map fst (incr eng d k) =
     (if k \<in> set (map fst d) \<or> k = ''__proto__'' then map fst d else map fst d @ [k])"
proof (cases "map_of d k")
  case None
  then have "k \<notin> set (map fst d)" by (simp add: map_of_eq_None_iff)
  with None show ?thesis by (simp add: incr_def)
next
  case (Some c)
  then have "k \<in> set (map fst d)" by (rule lookup_key)
  with Some show ?thesis by (cases c) (simp_all add: incr_def store_keys)
qed

lemma incr_other:
  assumes "x \<noteq> k"
  shows "map_of (incr eng d k) x = map_of d x"
proof (cases "map_of d k")
  case None
  with assms show ?thesis by (auto simp: incr_def map_add_def split: option.splits)
next
  case (Some c)
  with assms show ?thesis by (cases c) (simp_all add: incr_def store_lookup)
qed

lemma incr_new:
  "map_of d k = None \<Longrightarrow>
   map_of (incr eng d k) k =
     (if k = ''__proto__'' then None
      else if k \<in> set object_prototype_names then Some (Text (function_source eng k @ ''1''))
      else Some (Count 1))"
  by (cases "k = ''__proto__''") (simp_all add: incr_def map_add_def)

lemma incr_number: "map_of d k = Some (Count c) \<Longrightarrow> map_of (incr eng d k) k = Some (Count (c + 1))"
  by (simp add: incr_def store_lookup)

lemma incr_text:
  "map_of d k = Some (Text t) \<Longrightarrow> t \<noteq> [] \<Longrightarrow> map_of (incr eng d k) k = Some (Text (t @ ''1''))"
  by (simp add: incr_def store_lookup)

lemma first_index_append:
  "first_index (ks @ [k]) a = (if a \<in> set ks then first_index ks a else if a = k then length ks else Suc (length ks))"
  by (induction ks) auto

lemma first_index_less: "a \<in> set ks \<Longrightarrow> first_index ks a < length ks"
  by (induction ks) auto

lemma count_list_snoc: "count_list (ks @ [k]) x = count_list ks x + (if x = k then 1 else 0)"
  by (induction ks) auto

lemma count_list_pos: "x \<in> set ks \<Longrightarrow> 0 < count_list ks x"
  by (metis count_list_0_iff gr0I)

lemma tally_snoc_other: "x \<noteq> k \<Longrightarrow> tally eng (ks @ [k]) x = tally eng ks x"
  by (simp add: tally_def count_list_snoc)

lemma tally_fresh:
  "k \<notin> set ks \<Longrightarrow>
   tally eng (ks @ [k]) k =
     (if k \<in> set object_prototype_names then Text (function_source eng k @ ''1'') else Count 1)"
  by (simp add: tally_def count_list_snoc count_list_0_iff)

lemma tally_again:
  assumes "k \<in> set ks" and "map_of d k = Some (tally eng ks k)"
  shows "map_of (incr eng d k) k = Some (tally eng (ks @ [k]) k)"
proof (cases "k \<in> set object_prototype_names")
  case True
  let ?t = "function_source eng k @ replicate (count_list ks k) CHR ''1''"
  from assms(1) have "0 < count_list ks k" by (rule count_list_pos)
  then have "?t \<noteq> []" by simp
  moreover from True assms(2) have "map_of d k = Some (Text ?t)" by (simp add: tally_def)
  ultimately have "map_of (incr eng d k) k = Some (Text (?t @ ''1''))" by (rule incr_text [rotated])
  moreover have "?t @ ''1'' = function_source eng k @ replicate (count_list (ks @ [k]) k) CHR ''1''"
    by (simp add: count_list_snoc replicate_append_same)
  ultimately show ?thesis using True by (simp add: tally_def)
next
  case False
  with assms(2) have "map_of d k = Some (Count (count_list ks k))" by (simp add: tally_def)
  then have "map_of (incr eng d k) k = Some (Count (count_list ks k + 1))" by (rule incr_number)
  with False show ?thesis by (simp add: tally_def count_list_snoc)
qed

lemma foldl_incr:
  "distinct (map fst (foldl (incr eng) [] ks))
   \<and> set (map fst (foldl (incr eng) [] ks)) = set ks - {''__proto__''}
   \<and> sorted_wrt (\<lambda>a b. first_index ks a < first_index ks b) (map fst (foldl (incr eng) [] ks))
   \<and> (\<forall>x. map_of (foldl (incr eng) [] ks) x =
          (if x \<in> set ks \<and> x \<noteq> ''__proto__'' then Some (tally eng ks x) else None))"
proof (induction ks rule: rev_induct)
  case Nil
  then show ?case by simp
next
  case (snoc k ks)
  let ?d = "foldl (incr eng) [] ks"
  from snoc have dist: "distinct (map fst ?d)" and keys: "set (map fst ?d) = set ks - {''__proto__''}"
    and ord: "sorted_wrt (\<lambda>a b. first_index ks a < first_index ks b) (map fst ?d)"
    and cnt: "\<And>x. map_of ?d x = (if x \<in> set ks \<and> x \<noteq> ''__proto__'' then Some (tally eng ks x) else None)"
    by simp_all
  have f: "foldl (incr eng) [] (ks @ [k]) = incr eng ?d k" by simp
  have ord': "sorted_wrt (\<lambda>a b. first_index (ks @ [k]) a < first_index (ks @ [k]) b) (map fst ?d)"
  proof (rule sorted_wrt_mono_rel [OF _ ord])
    fix a b
    assume "a \<in> set (map fst ?d)" "b \<in> set (map fst ?d)" "first_index ks a < first_index ks b"
    with keys show "first_index (ks @ [k]) a < first_index (ks @ [k]) b"
      by (simp add: first_index_append)
  qed
  have 1: "distinct (map fst (incr eng ?d k))"
    using dist by (simp add: incr_keys)
  have 2: "set (map fst (incr eng ?d k)) = set (ks @ [k]) - {''__proto__''}"
    using keys by (auto simp: incr_keys)
  have 3: "sorted_wrt (\<lambda>a b. first_index (ks @ [k]) a < first_index (ks @ [k]) b) (map fst (incr eng ?d k))"
  proof (cases "k \<in> set (map fst ?d) \<or> k = ''__proto__''")
    case True
    with ord' show ?thesis by (simp add: incr_keys)
  next
    case False
    with keys have n: "k \<notin> set ks" by auto
    from False have "map fst (incr eng ?d k) = map fst ?d @ [k]" by (simp add: incr_keys)
    moreover have "\<forall>a \<in> set (map fst ?d). first_index (ks @ [k]) a < first_index (ks @ [k]) k"
      using keys n by (auto simp: first_index_append first_index_less)
    ultimately show ?thesis using ord' by (simp add: sorted_wrt_append)
  qed
  have 4: "map_of (incr eng ?d k) x =
     (if x \<in> set (ks @ [k]) \<and> x \<noteq> ''__proto__'' then Some (tally eng (ks @ [k]) x) else None)" for x
  proof (cases "x = k")
    case False
    with cnt [of x] show ?thesis by (simp add: incr_other tally_snoc_other)
  next
    case True
    show ?thesis
    proof (cases "k \<in> set ks \<and> k \<noteq> ''__proto__''")
      case True
      with cnt [of k] have "map_of ?d k = Some (tally eng ks k)" by simp
      with True have "map_of (incr eng ?d k) k = Some (tally eng (ks @ [k]) k)"
        by (intro tally_again) simp_all
      with True \<open>x = k\<close> show ?thesis by simp
    next
      case False
      with cnt [of k] have "map_of ?d k = None" by auto
      then have "map_of (incr eng ?d k) k =
         (if k = ''__proto__'' then None
          else if k \<in> set object_prototype_names then Some (Text (function_source eng k @ ''1''))
          else Some (Count 1))"
        by (rule incr_new)
      with False \<open>x = k\<close> show ?thesis by (auto simp: tally_fresh)
    qed
  qed
  from 1 2 3 4 show ?case unfolding f by blast
qed

section \<open>Properties of the counting loop\<close>

lemma count_attack_Some:
  "count_attack eng c a = Some c' \<Longrightarrow>
   a \<noteq> JUndefined \<and> a \<noteq> JNull \<and>
   (\<exists>s d t. source_key eng a = Some s \<and> target_key eng a = Some d \<and> type_key eng a = Some t \<and>
      c' = c\<lparr>sourceCountryCount := incr eng (sourceCountryCount c) s,
             targetCountryCount := incr eng (targetCountryCount c) d,
             attackTypeCount := incr eng (attackTypeCount c) t\<rparr>)"
  by (auto simp: count_attack_def split: if_splits option.splits)

lemma forEach_counts:
  "forEach (count_attack eng) c buf = Some c' \<Longrightarrow>
   sourceCountryCount c' = foldl (incr eng) (sourceCountryCount c) (keys_of (source_key eng) buf)
   \<and> targetCountryCount c' = foldl (incr eng) (targetCountryCount c) (keys_of (target_key eng) buf)
   \<and> attackTypeCount c' = foldl (incr eng) (attackTypeCount c) (keys_of (type_key eng) buf)"
proof (induction buf arbitrary: c)
  case Nil
  then show ?case by (simp add: keys_of_def)
next
  case (Cons a buf)
  from Cons.prems obtain c1 where c1: "count_attack eng c a = Some c1"
    and r: "forEach (count_attack eng) c1 buf = Some c'"
    by (auto split: option.splits)
  from count_attack_Some [OF c1] obtain s d t where
    k: "source_key eng a = Some s" "target_key eng a = Some d" "type_key eng a = Some t"
    and e: "c1 = c\<lparr>sourceCountryCount := incr eng (sourceCountryCount c) s,
             targetCountryCount := incr eng (targetCountryCount c) d,
             attackTypeCount := incr eng (attackTypeCount c) t\<rparr>"
    by blast
  from Cons.IH [OF r] k e show ?case by (simp add: keys_of_def)
qed





section \<open>Properties of the sort\<close>

lemma insert_sorted_insort:
  "insert_sorted by_count x ys = insort_key (\<lambda>e. - int (count_of (snd e))) x ys"
  by (induction ys) (simp_all add: by_count_def)

lemma js_sort_sort_key: "js_sort by_count xs = sort_key (\<lambda>e. - int (count_of (snd e))) xs"
  by (induction xs) (simp_all add: js_sort_def insert_sorted_insort)





lemma distinct_map_insort_key:
  "distinct (map g (insort_key f x ys)) = (g x \<notin> g ` set ys \<and> distinct (map g ys))"
  by (induction ys) (auto simp: set_insort_key)

lemma distinct_map_sort_key: "distinct (map g (sort_key f xs)) = distinct (map g xs)"
  by (induction xs) (simp_all add: distinct_map_insort_key)

lemma js_sort_mset: "mset (js_sort by_count xs) = mset xs"
  by (simp add: js_sort_sort_key)

lemma arrange_mset: "mset (arrange order xs) = mset xs"
  by (simp add: arrange_def)

section \<open>Properties of the grouped lists\<close>

lemma object_entries_mset: "mset (object_entries d) = mset d"
  by (simp add: object_entries_def)


lemma filter_partition_distinct:
  "distinct (map g (filter P xs @ filter (\<lambda>x. \<not> P x) xs)) = distinct (map g xs)"
  by (induction xs) auto

lemma object_entries_distinct: "distinct (map fst (object_entries d)) = distinct (map fst d)"
proof -
  let ?i = "filter (\<lambda>e. is_array_index (fst e)) d" and ?o = "filter (\<lambda>e. \<not> is_array_index (fst e)) d"
  have "distinct (map fst (object_entries d)) = distinct (map fst (?i @ ?o))"
    by (simp add: object_entries_def distinct_map_sort_key)
  also have "\<dots> = distinct (map fst d)"
    by (rule filter_partition_distinct)
  finally show ?thesis .
qed





lemma ranked_mset: "mset (ranked eng d) = mset d"
  by (simp add: ranked_def Let_def js_sort_mset arrange_mset object_entries_mset)

lemma ranked_set: "set (ranked eng d) = set d"
  using ranked_mset [of eng d] by (rule mset_eq_setD)


lemma dict_entries:
  "set (foldl (incr eng) [] ks) = (\<lambda>k. (k, tally eng ks k)) ` (set ks - {''__proto__''})"
proof -
  let ?d = "foldl (incr eng) [] ks"
  from foldl_incr [of eng ks] have dist: "distinct (map fst ?d)"
    and cnt: "\<And>x. map_of ?d x = (if x \<in> set ks \<and> x \<noteq> ''__proto__'' then Some (tally eng ks x) else None)"
    by blast+
  show ?thesis
  proof (intro set_eqI iffI)
    fix e assume "e \<in> set ?d"
    with dist have m: "map_of ?d (fst e) = Some (snd e)" by simp
    have i: "fst e \<in> set ks \<and> fst e \<noteq> ''__proto__''"
    proof (rule ccontr)
      assume "\<not> (fst e \<in> set ks \<and> fst e \<noteq> ''__proto__'')"
      with cnt [of "fst e"] have "map_of ?d (fst e) = None" by (simp only: if_False)
      with m show False by simp
    qed
    with cnt [of "fst e"] have "map_of ?d (fst e) = Some (tally eng ks (fst e))" by (simp only: if_True simp_thms)
    with m have "snd e = tally eng ks (fst e)" by simp
    then have "e = (fst e, tally eng ks (fst e))" by (simp add: prod_eq_iff)
    moreover from i have "fst e \<in> set ks - {''__proto__''}" by simp
    ultimately show "e \<in> (\<lambda>k. (k, tally eng ks k)) ` (set ks - {''__proto__''})"
      by (rule image_eqI)
  next
    fix e assume "e \<in> (\<lambda>k. (k, tally eng ks k)) ` (set ks - {''__proto__''})"
    then obtain k where k: "k \<in> set ks" "k \<noteq> ''__proto__''" "e = (k, tally eng ks k)" by blast
    with cnt [of k] have "map_of ?d k = Some (tally eng ks k)" by simp
    then have "(k, tally eng ks k) \<in> set ?d" by (rule map_of_SomeD)
    with k show "e \<in> set ?d" by simp
  qed
qed




section \<open>Properties of the double arithmetic\<close>














section \<open>Properties of the statistics\<close>

lemma calculateStats_Inr:
  "calculateStats eng now start buf = Inr st \<Longrightarrow>
   \<exists>c. forEach (count_attack eng)
          \<lparr>sourceCountryCount = [], targetCountryCount = [], attackTypeCount = []\<rparr> buf = Some c
     \<and> totalAttacks st = length buf
     \<and> attacksPerMinute st =
         (if positive (js_div (round64 (of_int now - of_int start)) (Finite (1000 * 60)))
          then js_div (Finite (of_nat (length buf)))
                 (js_div (round64 (of_int now - of_int start)) (Finite (1000 * 60)))
          else Finite 0)
     \<and> topSourceCountries st = ranked eng (sourceCountryCount c)
     \<and> topTargetCountries st = ranked eng (targetCountryCount c)
     \<and> attackTypes st = ranked eng (attackTypeCount c)"
  by (auto simp: calculateStats_def Let_def split: option.splits)

lemma calculateStats_lists:
  assumes "calculateStats eng now start buf = Inr st"
  shows "topSourceCountries st = ranked eng (foldl (incr eng) [] (keys_of (source_key eng) buf))"
    and "topTargetCountries st = ranked eng (foldl (incr eng) [] (keys_of (target_key eng) buf))"
    and "attackTypes st = ranked eng (foldl (incr eng) [] (keys_of (type_key eng) buf))"
proof -
  from calculateStats_Inr [OF assms] obtain c where
    f: "forEach (count_attack eng)
          \<lparr>sourceCountryCount = [], targetCountryCount = [], attackTypeCount = []\<rparr> buf = Some c"
    and l: "topSourceCountries st = ranked eng (sourceCountryCount c)"
      "topTargetCountries st = ranked eng (targetCountryCount c)"
      "attackTypes st = ranked eng (attackTypeCount c)"
    by blast
  from forEach_counts [OF f] l
  show "topSourceCountries st = ranked eng (foldl (incr eng) [] (keys_of (source_key eng) buf))"
    and "topTargetCountries st = ranked eng (foldl (incr eng) [] (keys_of (target_key eng) buf))"
    and "attackTypes st = ranked eng (foldl (incr eng) [] (keys_of (type_key eng) buf))"
    by simp_all
qed




section \<open>The statistics of the examples\<close>

text \<open>
  Values of the double arithmetic: ties go to the even neighbour, a third and a
  tenth are the doubles nearest to them, and the special cases of the division.
  Then the quotients of the examples. Seven milliseconds are \<open>0.00011666666666666667\<close> minutes, and one
  event in that time is a rate of \<open>8571.42857142857\<close>.
\<close>

lemma rounding_examples:
  "round64 (2 ^ 53 + 1) = Finite (2 ^ 53)"
  "round64 (2 ^ 53 + 3) = Finite (2 ^ 53 + 4)"
  "round64 (1 / 3) = Finite (6004799503160661 / 18014398509481984)"
  "round64 (- (1 / 3)) = Finite (- (6004799503160661 / 18014398509481984))"
  "round64 (1 / 10) = Finite (3602879701896397 / 36028797018963968)"
  by code_simp+

lemma division_examples:
  "js_div (Finite 1) (Finite 0) = PosInfinity"
  "js_div (Finite (- 1)) (Finite 0) = NegInfinity"
  "js_div (Finite 0) (Finite 0) = NaN"
  "js_div PosInfinity (Finite (- 2)) = NegInfinity"
  "js_div PosInfinity NegInfinity = NaN"
  "js_div (Finite 1) NegInfinity = Finite 0"
  "js_div NaN (Finite 1) = NaN"
  by (simp_all add: js_div_def is_infinite_def negative_def signed_infinity_def)

lemma two_minutes: "js_div (round64 120000) (Finite 60000) = Finite 2"
  by code_simp

lemma one_in_two_minutes: "js_div (Finite 1) (Finite 2) = Finite (1 / 2)"
  by code_simp




lemma one_minute: "js_div (round64 60000) (Finite 60000) = Finite 1"
  by code_simp


lemma one_in_one_minute: "js_div (Finite 1) (Finite 1) = Finite 1"
  by code_simp

text \<open>The definitions that evaluating \<open>calculateStats\<close> on a concrete buffer unfolds.\<close>

lemmas stats_eval = calculateStats_def count_attack_def source_key_def target_key_def type_key_def
  country_or_unknown_def incr_def store_def object_prototype_names_def ranked_def arrange_def
  object_entries_def is_array_index_def is_digit_def numeric_value_def digit_value_def
  js_sort_def by_count_def example_attack_def untyped_attack_def example_engine_def
  positive_def Let_def

lemma last_append_batch: "last (append_batch buffer [a]) = a"
  by (simp add: append_batch_slice slice_last_def)

lemma short_batch_kept:
  "length batch \<le> 1000 \<Longrightarrow> set batch \<subseteq> set (append_batch buffer batch)"
  by (simp add: append_batch_slice slice_last_def)

lemma keys_of_member: "a \<in> set buf \<Longrightarrow> key a = Some k \<Longrightarrow> k \<in> set (keys_of key buf)"
  by (force simp: keys_of_def)







text \<open>
  C10. A candidate that is an object with two well-formed points passes the
  validator whether or not it has \<open>type\<close>, \<open>id\<close> or \<open>timestamp\<close>. Sent alone
  in a batch it becomes the last element of the buffer, and sent in any batch with
  at most 1000 valid candidates it is in the buffer afterwards. If it has no
  \<open>type\<close>, its key in the attack-type dictionary is the string \<open>undefined\<close>, and
  every statistics computed from a buffer that holds it has an entry \<open>undefined\<close>
  in \<open>attackTypes\<close>, counting the events with that key. (A missing country is
  counted under \<open>Unknown\<close>; a missing type is not.)
\<close>

theorem missing_type_counted_as_undefined:
  "is_object a \<Longrightarrow> geo_point (get a ''src_geo'') \<Longrightarrow> geo_point (get a ''dst_geo'') \<Longrightarrow>
   get a ''type'' = JUndefined \<Longrightarrow>
   is_valid_attack a
   \<and> (data \<noteq> [] \<and> json_parse opts data = Some (JArr [a]) \<longrightarrow>
        allAttacksRef (onmessage opts data now s) = append_batch (allAttacksRef s) [a]
        \<and> last (allAttacksRef (onmessage opts data now s)) = a)
   \<and> (data \<noteq> [] \<and> json_parse opts data = Some (JArr candidates) \<and> a \<in> set candidates
        \<and> length (filter is_valid_attack candidates) \<le> 1000 \<longrightarrow>
        a \<in> set (allAttacksRef (onmessage opts data now s)))
   \<and> type_key eng a = Some ''undefined''
   \<and> (a \<in> set buf \<and> calculateStats eng clock start buf = Inr st \<longrightarrow>
        (''undefined'', Count (count_list (keys_of (type_key eng) buf) ''undefined'')) \<in> set (attackTypes st)
        \<and> 0 < count_list (keys_of (type_key eng) buf) ''undefined'')"
proof (intro conjI impI)
  assume o: "is_object a" and s: "geo_point (get a ''src_geo'')" and d: "geo_point (get a ''dst_geo'')"
    and t: "get a ''type'' = JUndefined"
  from o s d show v: "is_valid_attack a" by (simp add: valid_attack_shape)
  from t show k: "type_key eng a = Some ''undefined''" by (simp add: type_key_def)
  {
    assume m: "data \<noteq> [] \<and> json_parse opts data = Some (JArr [a])"
    with v show b: "allAttacksRef (onmessage opts data now s) = append_batch (allAttacksRef s) [a]"
      by (simp add: onmessage_def Let_def)
    then show "last (allAttacksRef (onmessage opts data now s)) = a"
      by (simp add: last_append_batch)
  }
  {
    assume m: "data \<noteq> [] \<and> json_parse opts data = Some (JArr candidates) \<and> a \<in> set candidates
        \<and> length (filter is_valid_attack candidates) \<le> 1000"
    let ?valid = "filter is_valid_attack candidates"
    from m v have i: "a \<in> set ?valid" by simp
    from m v have "?valid \<noteq> []" by (auto simp: filter_empty_conv)
    with m have "allAttacksRef (onmessage opts data now s) = append_batch (allAttacksRef s) ?valid"
      by (simp add: onmessage_def Let_def)
    moreover from m have "set ?valid \<subseteq> set (append_batch (allAttacksRef s) ?valid)"
      by (intro short_batch_kept) simp
    ultimately show "a \<in> set (allAttacksRef (onmessage opts data now s))"
      using i by auto
  }
  {
    assume c: "a \<in> set buf \<and> calculateStats eng clock start buf = Inr st"
    let ?ks = "keys_of (type_key eng) buf"
    from c k have u: "''undefined'' \<in> set ?ks" by (intro keys_of_member [of a buf]) simp_all
    from c have "calculateStats eng clock start buf = Inr st" by simp
    then have "attackTypes st = ranked eng (foldl (incr eng) [] ?ks)" by (rule calculateStats_lists)
    then have "set (attackTypes st) = (\<lambda>k. (k, tally eng ?ks k)) ` (set ?ks - {''__proto__''})"
      by (simp only: ranked_set dict_entries)
    moreover have "tally eng ?ks ''undefined'' = Count (count_list ?ks ''undefined'')"
      by (simp add: tally_def object_prototype_names_def)
    moreover from u have "''undefined'' \<in> set ?ks - {''__proto__''}" by simp
    ultimately show "(''undefined'', Count (count_list ?ks ''undefined'')) \<in> set (attackTypes st)"
      by (metis (no_types, lifting) image_eqI)
    from u show "0 < count_list ?ks ''undefined''"
      by (rule count_list_pos)
  }
qed

theorem missing_type_counted_as_undefined_witness:
  "is_valid_attack (untyped_attack ''A'' ''B'')
   \<and> onmessage (default_options (map_of [(''[e]'', JArr [untyped_attack ''A'' ''B''])])) ''[e]'' 7 (initial 0)
      = (initial 0)\<lparr>allAttacksRef := [untyped_attack ''A'' ''B''], attacks := [untyped_attack ''A'' ''B''],
                     lastUpdate := Some 7\<rparr>
   \<and> untyped_attack ''A'' ''B''
        \<in> set (allAttacksRef (onmessage (default_options (map_of [(''[e]'', JArr [untyped_attack ''A'' ''B''])]))
                  ''[e]'' 7 (initial 0)))
   \<and> type_key example_engine (untyped_attack ''A'' ''B'') = Some ''undefined''
   \<and> calculateStats example_engine 60000 0 [untyped_attack ''A'' ''B'']
      = Inr \<lparr>totalAttacks = 1, attacksPerMinute = Finite 1, topSourceCountries = [(''A'', Count 1)],
              topTargetCountries = [(''B'', Count 1)], attackTypes = [(''undefined'', Count 1)]\<rparr>
   \<and> (''undefined'', Count (count_list (keys_of (type_key example_engine) [untyped_attack ''A'' ''B'']) ''undefined''))
        \<in> set [(''undefined'', Count 1)]"
proof -
  let ?a = "untyped_attack ''A'' ''B''"
  let ?opts = "default_options (map_of [(''[e]'', JArr [?a])])"
  let ?st = "\<lparr>totalAttacks = 1, attacksPerMinute = Finite 1, topSourceCountries = [(''A'', Count 1)],
              topTargetCountries = [(''B'', Count 1)], attackTypes = [(''undefined'', Count 1)]\<rparr>"
  have o: "is_object ?a" and s: "geo_point (get ?a ''src_geo'')" and d: "geo_point (get ?a ''dst_geo'')"
    and t: "get ?a ''type'' = JUndefined"
    by (simp_all add: untyped_attack_def geo_point_def)
  have p: "''[e]'' \<noteq> [] \<and> json_parse ?opts ''[e]'' = Some (JArr [?a])"
    by (simp add: default_options_def)
  have c: "calculateStats example_engine 60000 0 [?a] = Inr ?st"
    by (simp add: stats_eval one_minute one_in_one_minute)
  note w = missing_type_counted_as_undefined [OF o s d t, of "''[e]''" ?opts 7 "initial 0" "[?a]" example_engine "[?a]" 60000 0 ?st]
  from w have 1: "is_valid_attack ?a" by blast
  from 1 p have 2: "onmessage ?opts ''[e]'' 7 (initial 0)
      = (initial 0)\<lparr>allAttacksRef := [?a], attacks := [?a], lastUpdate := Some 7\<rparr>"
    by (simp add: onmessage_def Let_def append_batch_def initial_def)
  from 2 have 5: "?a \<in> set (allAttacksRef (onmessage ?opts ''[e]'' 7 (initial 0)))"
    by simp
  from w have 3: "type_key example_engine ?a = Some ''undefined''" by blast
  from w c have 4: "(''undefined'', Count (count_list (keys_of (type_key example_engine) [?a]) ''undefined''))
        \<in> set [(''undefined'', Count 1)]"
    by simp
  from 1 2 3 4 5 c show ?thesis by blast
qed

end
